theory Spec2Isabelle
  imports Main "HOL-Library.Sublist"
begin

section \<open>The running-sessions extension (packages/running-extension/src/index.ts)\<close>

text \<open>
  The extension registers two providers with the running panel: "Open Tabs", fed by the
  application shell and an \<open>OpenTabsSignaler\<close>, and "Kernels", fed by the session manager.
  This theory embeds the functions of that file and proves what they do.
\<close>

subsection \<open>JavaScript strings\<close>

text \<open>
  A string is a list of characters. \<open>s.indexOf(p)\<close> is the position of the first
  occurrence of \<open>p\<close> in \<open>s\<close>, or \<open>-1\<close> when there is none; the empty pattern occurs at
  position 0.
\<close>

fun starts_with :: "string \<Rightarrow> string \<Rightarrow> bool" where
  "starts_with s [] = True"
| "starts_with [] (c # p) = False"
| "starts_with (x # s) (c # p) = (x = c \<and> starts_with s p)"

fun indexOf :: "string \<Rightarrow> string \<Rightarrow> int" where
  "indexOf [] p = (if p = [] then 0 else - 1)"
| "indexOf (x # s) p =
     (if starts_with (x # s) p then 0
      else (let r = indexOf s p in if r = - 1 then - 1 else r + 1))"

text \<open>
  \<open>s.toLowerCase()\<close>, on the letters \<open>A\<close> to \<open>Z\<close> (character codes 65 to 90); every other
  character is left as it is. No character outside \<open>A\<close> to \<open>Z\<close> lowers to a letter of
  \<open>console\<close>, the only string the file compares a lowered string with.
\<close>

definition lower_char :: "char \<Rightarrow> char" where
  "lower_char c =
     (let n = (of_char c :: nat) in if 65 \<le> n \<and> n \<le> 90 then char_of (n + 32) else c)"

definition toLowerCase :: "string \<Rightarrow> string" where
  "toLowerCase s = map lower_char s"

text \<open>
  \<open>a || b\<close> on strings: the empty string is the only falsy string, so the value is \<open>a\<close>
  unless \<open>a\<close> is empty.
\<close>

definition or_else :: "string \<Rightarrow> string \<Rightarrow> string" where
  "or_else a b = (if a \<noteq> [] then a else b)"

subsection \<open>The Kernels provider\<close>

text \<open>
  \<open>Session.IModel\<close>: the fields of a session record that the file reads. All four are
  strings in the interface.
\<close>

record session_model =
  session_id :: string
  name :: string
  path :: string
  type :: string

datatype icon = notebookIcon | consoleIcon | fileIcon

text \<open>An item of the Kernels provider holds its session record (\<open>this._model\<close>).\<close>

datatype running_kernel = RunningKernel session_model

fun model :: "running_kernel \<Rightarrow> session_model" where
  "model (RunningKernel m) = m"

text \<open>
  \<open>PathExt.basename\<close> is imported from another package; every function that calls it
  takes it as the parameter \<open>basename\<close>.

  \<open>filterSessions\<close>: \<open>!!((m.name || basename(m.path)).indexOf('.') !== -1 || m.name)\<close>.
\<close>

definition filterSessions :: "(string \<Rightarrow> string) \<Rightarrow> session_model \<Rightarrow> bool" where
  "filterSessions basename m =
     (indexOf (or_else (name m) (basename (path m))) ''.'' \<noteq> - 1 \<or> name m \<noteq> [])"

text \<open>
  \<open>running\<close> of the Kernels provider: the session manager's running models, filtered,
  each wrapped in a \<open>RunningKernel\<close>.
\<close>

definition kernels_running ::
  "(string \<Rightarrow> string) \<Rightarrow> session_model list \<Rightarrow> running_kernel list" where
  "kernels_running basename ms = map RunningKernel (filter (filterSessions basename) ms)"

text \<open>\<open>RunningKernel.icon\<close>.\<close>

definition kernel_icon :: "(string \<Rightarrow> string) \<Rightarrow> running_kernel \<Rightarrow> icon" where
  "kernel_icon basename k =
     (let m = model k in
      if indexOf (or_else (name m) (basename (path m))) ''.ipynb'' \<noteq> - 1 then notebookIcon
      else if toLowerCase (type m) = ''console'' then consoleIcon
      else fileIcon)"

text \<open>
  \<open>RunningKernel.open\<close> calls \<open>app.commands.execute(id, { path })\<close> once; the model
  returns the calls it makes, in order.
\<close>

datatype command = Execute string string

fun command_id :: "command \<Rightarrow> string" where
  "command_id (Execute c p) = c"

definition kernel_open :: "running_kernel \<Rightarrow> command list" where
  "kernel_open k =
     (let m = model k in
      if toLowerCase (type m) = ''console'' then [Execute ''console:open'' (path m)]
      else [Execute ''docmanager:open'' (path m)])"

text \<open>
  A stand-in for \<open>basename\<close> used where a concrete function is needed: the part of the
  path after its last slash.
\<close>

fun last_segment :: "string \<Rightarrow> string" where
  "last_segment [] = []"
| "last_segment (c # s) =
     (if CHR ''/'' \<in> set s then last_segment s else if c = CHR ''/'' then s else c # s)"

subsection \<open>Widgets and the Open Tabs items\<close>

text \<open>
  What the file reads of a widget: its \<open>id\<close>, its title's label, whether it is an instance
  of \<open>MainAreaWidget\<close> (instances of its subclasses are), and, for such a widget, which
  signal \<open>widget.content.title.changed\<close> is. Signals are told apart by a number.
\<close>

datatype widget_class = MainAreaWidgetClass | OtherWidgetClass

record widget =
  widget_id :: string
  title_label :: string
  widget_class :: widget_class
  content_title_changed :: nat

definition instanceof_MainAreaWidget :: "widget \<Rightarrow> bool" where
  "instanceof_MainAreaWidget w = (widget_class w = MainAreaWidgetClass)"

text \<open>An item of the Open Tabs provider holds its widget (\<open>this._widget\<close>).\<close>

datatype open_tab = OpenTab widget

text \<open>\<open>OpenTab.icon\<close>: the body is \<open>return fileIcon\<close>; the rest of it is commented out.\<close>

fun open_tab_icon :: "open_tab \<Rightarrow> icon" where
  "open_tab_icon (OpenTab w) = fileIcon"

subsection \<open>Signal connections\<close>

text \<open>
  \<open>connect\<close>, \<open>disconnect\<close> and \<open>emit\<close> are those of the signalling library the file
  imports (\<open>@lumino/signaling\<close>). Its contract: signal connections are unique, so
  connecting a slot and receiver that are already connected to the signal changes nothing;
  \<open>disconnect\<close> removes the connection if there is one; \<open>emit\<close> invokes the connected
  slots, and a slot disconnected while the signal is being emitted is no longer invoked.

  The signaler connects one slot only, \<open>this._emitTabsChanged\<close> with receiver \<open>this\<close>, so
  its connections are the list of the signals it is connected to.
\<close>

definition connect :: "nat \<Rightarrow> nat list \<Rightarrow> nat list" where
  "connect c cs = (if c \<in> set cs then cs else cs @ [c])"

definition disconnect :: "nat \<Rightarrow> nat list \<Rightarrow> nat list" where
  "disconnect c cs = remove1 c cs"

subsection \<open>OpenTabsSignaler\<close>

text \<open>
  The state of a signaler: \<open>this._widgets\<close>, the title signals its slot is connected to,
  whether its slot is connected to the shell's \<open>layoutModified\<close>, and the effects it has
  had so far, in program order.
\<close>

datatype effect = ConnectTitle nat | DisconnectTitle nat | ClearWidgets | EmitTabsChanged

record signaler =
  widgets :: "widget list"
  title_connections :: "nat list"
  layout_connected :: bool
  trace :: "effect list"

text \<open>The constructor connects the slot to \<open>layoutModified\<close>; the fields start empty.\<close>

definition OpenTabsSignaler_new :: signaler where
  "OpenTabsSignaler_new =
     \<lparr>widgets = [], title_connections = [], layout_connected = True, trace = []\<rparr>"

text \<open>\<open>addWidget\<close>.\<close>

definition addWidget :: "widget \<Rightarrow> signaler \<Rightarrow> signaler" where
  "addWidget w s =
     (if instanceof_MainAreaWidget w then
        s\<lparr>title_connections := connect (content_title_changed w) (title_connections s),
          widgets := widgets s @ [w],
          trace := trace s @ [ConnectTitle (content_title_changed w)]\<rparr>
      else s)"

text \<open>
  \<open>_emitTabsChanged\<close>, one function per statement: the \<open>forEach\<close> that disconnects the
  slot from the title signal of every widget of \<open>this._widgets\<close>, the assignment
  \<open>this._widgets = []\<close>, and \<open>this._tabsChanged.emit\<close>.
\<close>

fun disconnect_each :: "widget list \<Rightarrow> nat list \<Rightarrow> nat list" where
  "disconnect_each [] cs = cs"
| "disconnect_each (w # ws) cs = disconnect_each ws (disconnect (content_title_changed w) cs)"

definition disconnect_all :: "signaler \<Rightarrow> signaler" where
  "disconnect_all s =
     s\<lparr>title_connections := disconnect_each (widgets s) (title_connections s),
       trace := trace s @ map (\<lambda>w. DisconnectTitle (content_title_changed w)) (widgets s)\<rparr>"

definition clear_widgets :: "signaler \<Rightarrow> signaler" where
  "clear_widgets s = s\<lparr>widgets := [], trace := trace s @ [ClearWidgets]\<rparr>"

definition tabsChanged_emit :: "signaler \<Rightarrow> signaler" where
  "tabsChanged_emit s = s\<lparr>trace := trace s @ [EmitTabsChanged]\<rparr>"

definition emitTabsChanged :: "signaler \<Rightarrow> signaler" where
  "emitTabsChanged s = tabsChanged_emit (clear_widgets (disconnect_all s))"

text \<open>How often \<open>tabsChanged\<close> has been emitted.\<close>

definition emissions :: "signaler \<Rightarrow> nat" where
  "emissions s = count_list (trace s) EmitTabsChanged"

text \<open>
  The two notifications the slot is connected to. A title signal invokes the slot if the
  slot is connected to it; the connection being unique, it invokes it once.
\<close>

definition title_changed :: "nat \<Rightarrow> signaler \<Rightarrow> signaler" where
  "title_changed c s = (if c \<in> set (title_connections s) then emitTabsChanged s else s)"

definition layout_modified :: "signaler \<Rightarrow> signaler" where
  "layout_modified s = (if layout_connected s then emitTabsChanged s else s)"

text \<open>What can happen to a signaler, and a run of such events from a fresh signaler.\<close>

datatype event = AddWidget widget | TitleChanged nat | LayoutModified

fun step :: "event \<Rightarrow> signaler \<Rightarrow> signaler" where
  "step (AddWidget w) s = addWidget w s"
| "step (TitleChanged c) s = title_changed c s"
| "step LayoutModified s = layout_modified s"

fun run :: "event list \<Rightarrow> signaler \<Rightarrow> signaler" where
  "run [] s = s"
| "run (e # es) s = run es (step e s)"

definition reached :: "event list \<Rightarrow> signaler" where
  "reached es = run es OpenTabsSignaler_new"

text \<open>
  \<open>running\<close> of the Open Tabs provider, on the shell's main-area widgets: each widget is
  added to the signaler and wrapped in an \<open>OpenTab\<close>.
\<close>

fun add_each :: "widget list \<Rightarrow> signaler \<Rightarrow> signaler" where
  "add_each [] s = s"
| "add_each (w # ws) s = add_each ws (addWidget w s)"

definition open_tabs_running :: "widget list \<Rightarrow> signaler \<Rightarrow> open_tab list \<times> signaler" where
  "open_tabs_running ws s = (map OpenTab ws, add_each ws s)"

text \<open>
  Whether, in a trace, every emission comes directly after the clearing of the tracked
  widgets.
\<close>

fun emits_after :: "effect \<Rightarrow> effect list \<Rightarrow> bool" where
  "emits_after prev [] = True"
| "emits_after prev (e # es) =
     ((if e = EmitTabsChanged then prev = ClearWidgets else True) \<and> emits_after e es)"

definition mutate_then_announce :: "effect list \<Rightarrow> bool" where
  "mutate_then_announce t = emits_after EmitTabsChanged t"

subsection \<open>shutdownAll\<close>

text \<open>
  The shell as \<open>shutdownAll\<close> of the Open Tabs provider sees it: its main-area widgets,
  and the calls of \<open>close\<close> made so far. A call of \<open>widget.close()\<close> closes the widget,
  returns leaving it open, or throws; which one is the parameter \<open>outcome\<close>.
\<close>

datatype close_outcome = Closes | StaysOpen | Throws

record shell =
  main_widgets :: "widget list"
  close_calls :: "widget list"

datatype completion = Returned shell | Thrown shell

fun final_shell :: "completion \<Rightarrow> shell" where
  "final_shell (Returned sh) = sh"
| "final_shell (Thrown sh) = sh"

definition widget_close :: "(widget \<Rightarrow> close_outcome) \<Rightarrow> widget \<Rightarrow> shell \<Rightarrow> completion" where
  "widget_close outcome w sh =
     (let sh' = sh\<lparr>close_calls := close_calls sh @ [w]\<rparr> in
      case outcome w of
        Closes \<Rightarrow> Returned (sh'\<lparr>main_widgets := removeAll w (main_widgets sh')\<rparr>)
      | StaysOpen \<Rightarrow> Returned sh'
      | Throws \<Rightarrow> Thrown sh')"

text \<open>
  \<open>forEach\<close> over the widgets with the callback \<open>widget.close()\<close>: an exception thrown by
  the callback ends the loop and leaves \<open>forEach\<close>, no statement of the file catching it.
\<close>

fun forEach_close :: "(widget \<Rightarrow> close_outcome) \<Rightarrow> widget list \<Rightarrow> shell \<Rightarrow> completion" where
  "forEach_close outcome [] sh = Returned sh"
| "forEach_close outcome (w # ws) sh =
     (case widget_close outcome w sh of
        Thrown sh' \<Rightarrow> Thrown sh'
      | Returned sh' \<Rightarrow> forEach_close outcome ws sh')"

text \<open>\<open>shutdownAll\<close> of the Open Tabs provider, over \<open>toArray(labShell.widgets('main'))\<close>.\<close>

definition open_tabs_shutdownAll :: "(widget \<Rightarrow> close_outcome) \<Rightarrow> shell \<Rightarrow> completion" where
  "open_tabs_shutdownAll outcome sh = forEach_close outcome (main_widgets sh) sh"

text \<open>
  \<open>shutdownAll\<close> of the Kernels provider is \<open>() => manager.shutdownAll()\<close>: whatever the
  session manager's own \<open>shutdownAll\<close> does.
\<close>

definition kernels_shutdownAll :: "('m \<Rightarrow> 'r) \<Rightarrow> 'm \<Rightarrow> 'r" where
  "kernels_shutdownAll manager_shutdownAll manager = manager_shutdownAll manager"

subsection \<open>Consistent signaler states\<close>

text \<open>
  What holds of a signaler after any run of events: its slot is connected to exactly the
  title signals of the widgets of \<open>this._widgets\<close>, to each once, and to
  \<open>layoutModified\<close>, and every widget of \<open>this._widgets\<close> is a \<open>MainAreaWidget\<close>.
\<close>

definition consistent :: "signaler \<Rightarrow> bool" where
  "consistent s =
     (set (title_connections s) = set (map content_title_changed (widgets s)) \<and>
      distinct (title_connections s) \<and> layout_connected s \<and>
      list_all instanceof_MainAreaWidget (widgets s))"

subsection \<open>Sample inputs\<close>

text \<open>Three main-area tabs, a widget of another class, and some session records.\<close>

definition tab_a :: widget where
  "tab_a = \<lparr>widget_id = ''a'', title_label = ''a.ipynb'',
     widget_class = MainAreaWidgetClass, content_title_changed = 0\<rparr>"

definition tab_b :: widget where
  "tab_b = \<lparr>widget_id = ''b'', title_label = ''b.txt'',
     widget_class = MainAreaWidgetClass, content_title_changed = 1\<rparr>"

definition tab_c :: widget where
  "tab_c = \<lparr>widget_id = ''c'', title_label = ''Console 1'',
     widget_class = MainAreaWidgetClass, content_title_changed = 2\<rparr>"

definition side_panel :: widget where
  "side_panel = \<lparr>widget_id = ''p'', title_label = ''Panel'',
     widget_class = OtherWidgetClass, content_title_changed = 3\<rparr>"

text \<open>\<open>close\<close> throws on the widget whose id is \<open>b\<close> and closes every other widget.\<close>

definition b_throws :: "widget \<Rightarrow> close_outcome" where
  "b_throws w = (if widget_id w = ''b'' then Throws else Closes)"

text \<open>\<open>close\<close> leaves the widget whose id is \<open>b\<close> open and closes every other widget.\<close>

definition b_stays_open :: "widget \<Rightarrow> close_outcome" where
  "b_stays_open w = (if widget_id w = ''b'' then StaysOpen else Closes)"

definition three_tabs :: shell where
  "three_tabs = \<lparr>main_widgets = [tab_a, tab_b, tab_c], close_calls = []\<rparr>"

definition foo_notebook :: session_model where
  "foo_notebook = \<lparr>session_id = ''s1'', name = ''foo.ipynb'', path = ''work/foo.ipynb'',
     type = ''notebook''\<rparr>"

definition notebook_console :: session_model where
  "notebook_console = \<lparr>session_id = ''s2'', name = ''log.ipynb'', path = ''work/log.ipynb'',
     type = ''Console''\<rparr>"

definition plain_console :: session_model where
  "plain_console = \<lparr>session_id = ''s3'', name = ''Console 1'', path = ''work/console-1'',
     type = ''CONSOLE''\<rparr>"

definition text_file :: session_model where
  "text_file = \<lparr>session_id = ''s4'', name = [], path = ''work/notes.txt'',
     type = ''file''\<rparr>"

definition unnamed_session :: session_model where
  "unnamed_session = \<lparr>session_id = ''s5'', name = [], path = ''work/scratch'',
     type = ''notebook''\<rparr>"

text \<open>
  A console whose path is a notebook's, and two records without a name: one whose path
  ends in a notebook file, one that lies in a directory named like a notebook.
\<close>

definition console_on_notebook :: session_model where
  "console_on_notebook = \<lparr>session_id = ''s6'', name = ''Console 1'',
     path = ''work/log.ipynb'', type = ''console''\<rparr>"

definition unnamed_notebook_console :: session_model where
  "unnamed_notebook_console = \<lparr>session_id = ''s7'', name = [], path = ''work/lab.ipynb'',
     type = ''Console''\<rparr>"

definition session_in_ipynb_dir :: session_model where
  "session_in_ipynb_dir = \<lparr>session_id = ''s8'', name = [], path = ''a.ipynb/scratch'',
     type = ''notebook''\<rparr>"

subsection \<open>Facts about strings\<close>

lemma starts_with_prefix: "starts_with s p = prefix p s"
  by (induction s p rule: starts_with.induct) auto

lemma indexOf_ge: "- 1 \<le> indexOf s p"
  by (induction s) (auto simp: Let_def)

lemma indexOf_found: "indexOf s p \<noteq> - 1 \<longleftrightarrow> sublist p s"
proof (induction s)
  case Nil
  then show ?case by auto
next
  case (Cons x s)
  have ge: "- 1 \<le> indexOf s p" by (rule indexOf_ge)
  show ?case
  proof (cases "starts_with (x # s) p")
    case True
    then have "prefix p (x # s)" by (simp add: starts_with_prefix)
    then have "sublist p (x # s)" by (rule prefix_imp_sublist)
    with True show ?thesis by simp
  next
    case False
    then have np: "\<not> prefix p (x # s)" by (simp add: starts_with_prefix)
    have "indexOf (x # s) p \<noteq> - 1 \<longleftrightarrow> indexOf s p \<noteq> - 1"
      using False ge by (auto simp: Let_def)
    also have "\<dots> \<longleftrightarrow> sublist p s" by (rule Cons.IH)
    also have "\<dots> \<longleftrightarrow> sublist p (x # s)" using np by (simp add: sublist_Cons_right)
    finally show ?thesis .
  qed
qed

lemma sublist_single: "sublist [c] s \<longleftrightarrow> c \<in> set s"
proof
  assume "sublist [c] s"
  then show "c \<in> set s" by (auto simp: sublist_def)
next
  assume "c \<in> set s"
  then obtain u v where "s = u @ c # v" by (auto simp: in_set_conv_decomp)
  then have "s = u @ [c] @ v" by simp
  then show "sublist [c] s" unfolding sublist_def by blast
qed

lemma indexOf_dot: "indexOf s ''.'' \<noteq> - 1 \<longleftrightarrow> CHR ''.'' \<in> set s"
  by (simp only: indexOf_found sublist_single)

subsection \<open>The signaler: invariant and trace order\<close>

lemma disconnect_each_empty:
  "distinct cs \<Longrightarrow> set cs \<subseteq> set (map content_title_changed ws) \<Longrightarrow> disconnect_each ws cs = []"
proof (induction ws arbitrary: cs)
  case Nil
  then show ?case by simp
next
  case (Cons w ws)
  let ?cs = "disconnect (content_title_changed w) cs"
  have d: "distinct ?cs" using Cons.prems(1) by (simp add: disconnect_def)
  have "set ?cs = set cs - {content_title_changed w}"
    using Cons.prems(1) by (simp add: disconnect_def)
  then have "set ?cs \<subseteq> set (map content_title_changed ws)"
    using Cons.prems(2) by auto
  with d have "disconnect_each ws ?cs = []" by (rule Cons.IH)
  then show ?case by simp
qed

lemma consistent_new: "consistent OpenTabsSignaler_new"
  by (simp add: consistent_def OpenTabsSignaler_new_def)

lemma consistent_addWidget: "consistent s \<Longrightarrow> consistent (addWidget w s)"
  by (auto simp: consistent_def addWidget_def connect_def)

lemma emitTabsChanged_fields:
  "widgets (emitTabsChanged s) = []"
  "title_connections (emitTabsChanged s) = disconnect_each (widgets s) (title_connections s)"
  "layout_connected (emitTabsChanged s) = layout_connected s"
  "trace (emitTabsChanged s) =
     trace s @ map (\<lambda>w. DisconnectTitle (content_title_changed w)) (widgets s) @
       [ClearWidgets, EmitTabsChanged]"
  by (simp_all add: emitTabsChanged_def tabsChanged_emit_def clear_widgets_def disconnect_all_def)

lemma consistent_emitTabsChanged_connections:
  "consistent s \<Longrightarrow> title_connections (emitTabsChanged s) = []"
  by (simp add: emitTabsChanged_fields consistent_def disconnect_each_empty)

lemma consistent_emitTabsChanged: "consistent s \<Longrightarrow> consistent (emitTabsChanged s)"
  using consistent_emitTabsChanged_connections [of s]
  by (simp add: consistent_def emitTabsChanged_fields(1,3))

lemma consistent_step: "consistent s \<Longrightarrow> consistent (step e s)"
  by (cases e)
    (simp_all add: consistent_addWidget consistent_emitTabsChanged title_changed_def
      layout_modified_def)

lemma consistent_run: "consistent s \<Longrightarrow> consistent (run es s)"
  by (induction es arbitrary: s) (simp_all add: consistent_step)

lemma consistent_reached: "consistent (reached es)"
  by (simp add: reached_def consistent_run consistent_new)

lemma count_list_disconnects:
  "count_list (map (\<lambda>w. DisconnectTitle (content_title_changed w)) ws) EmitTabsChanged = 0"
  by (induction ws) simp_all

lemma emissions_emitTabsChanged: "emissions (emitTabsChanged s) = emissions s + 1"
  by (simp add: emissions_def emitTabsChanged_fields(4) count_list_append count_list_disconnects)

lemma emits_after_append:
  "emits_after p (t @ u) = (emits_after p t \<and> emits_after (last (p # t)) u)"
  by (induction t arbitrary: p) auto

lemma emits_after_disconnects:
  "emits_after p (map (\<lambda>w. DisconnectTitle (content_title_changed w)) ws)"
  by (induction ws arbitrary: p) simp_all

lemma ordered_addWidget:
  "mutate_then_announce (trace s) \<Longrightarrow> mutate_then_announce (trace (addWidget w s))"
  by (simp add: mutate_then_announce_def addWidget_def emits_after_append)

lemma ordered_emitTabsChanged:
  "mutate_then_announce (trace s) \<Longrightarrow> mutate_then_announce (trace (emitTabsChanged s))"
  by (simp add: mutate_then_announce_def emitTabsChanged_fields(4) emits_after_append
      emits_after_disconnects)

lemma ordered_step:
  "mutate_then_announce (trace s) \<Longrightarrow> mutate_then_announce (trace (step e s))"
  by (cases e)
    (simp_all add: ordered_addWidget ordered_emitTabsChanged title_changed_def
      layout_modified_def)

lemma ordered_run:
  "mutate_then_announce (trace s) \<Longrightarrow> mutate_then_announce (trace (run es s))"
  by (induction es arbitrary: s) (simp_all add: ordered_step)

lemma ordered_reached: "mutate_then_announce (trace (reached es))"
  unfolding reached_def
  by (rule ordered_run) (simp add: mutate_then_announce_def OpenTabsSignaler_new_def)

lemma tracked_connected:
  "consistent s \<Longrightarrow> w \<in> set (widgets s) \<Longrightarrow> content_title_changed w \<in> set (title_connections s)"
  by (simp add: consistent_def)

lemma tracked_is_main_area:
  "consistent s \<Longrightarrow> w \<in> set (widgets s) \<Longrightarrow> instanceof_MainAreaWidget w"
  by (simp add: consistent_def list_all_iff)

lemma title_changed_unconnected: "title_connections s = [] \<Longrightarrow> title_changed c s = s"
  by (simp add: title_changed_def)

lemma consistent_add_each: "consistent s \<Longrightarrow> consistent (add_each ws s)"
  by (induction ws arbitrary: s) (simp_all add: consistent_addWidget)

lemma widgets_add_each:
  "widgets (add_each ws s) = widgets s @ filter instanceof_MainAreaWidget ws"
  by (induction ws arbitrary: s) (simp_all add: addWidget_def)

lemma emissions_add_each: "emissions (add_each ws s) = emissions s"
  by (induction ws arbitrary: s) (simp_all add: addWidget_def emissions_def)

lemma running_resubscribes:
  assumes "consistent s" and "instanceof_MainAreaWidget w" and "w \<in> set ws"
  shows "emissions (title_changed (content_title_changed w) (snd (open_tabs_running ws s)))
    = emissions s + 1"
proof -
  let ?t = "add_each ws s"
  have c: "consistent ?t" using assms(1) by (rule consistent_add_each)
  have "w \<in> set (widgets ?t)" using assms(2,3) by (simp add: widgets_add_each)
  with c have "content_title_changed w \<in> set (title_connections ?t)"
    by (rule tracked_connected)
  then have "title_changed (content_title_changed w) ?t = emitTabsChanged ?t"
    by (simp add: title_changed_def)
  then show ?thesis
    by (simp add: open_tabs_running_def emissions_emitTabsChanged emissions_add_each)
qed

lemma count_list_distinct:
  "distinct xs \<Longrightarrow> count_list xs x = (if x \<in> set xs then 1 else 0)"
  by (induction xs) auto

lemma addWidget_twice_fields:
  assumes "instanceof_MainAreaWidget w"
  shows "widgets (addWidget w (addWidget w s)) = widgets s @ [w, w]"
    and "title_connections (addWidget w (addWidget w s)) = title_connections (addWidget w s)"
    and "trace (addWidget w (addWidget w s)) =
      trace s @ [ConnectTitle (content_title_changed w), ConnectTitle (content_title_changed w)]"
  using assms by (simp_all add: addWidget_def connect_def)

subsection \<open>The shutdown loop\<close>

lemma forEach_close_calls:
  "close_calls (final_shell (forEach_close outcome ws sh)) =
     close_calls sh @ takeWhile (\<lambda>w. outcome w \<noteq> Throws) ws
       @ take 1 (dropWhile (\<lambda>w. outcome w \<noteq> Throws) ws)"
proof (induction ws arbitrary: sh)
  case Nil
  then show ?case by simp
next
  case (Cons w ws)
  show ?case
  proof (cases "outcome w")
    case Closes
    then show ?thesis by (simp add: widget_close_def Cons.IH)
  next
    case StaysOpen
    then show ?thesis by (simp add: widget_close_def Cons.IH)
  next
    case Throws
    then show ?thesis by (simp add: widget_close_def)
  qed
qed

lemma forEach_close_returns:
  "list_all (\<lambda>w. outcome w \<noteq> Throws) ws \<Longrightarrow>
     forEach_close outcome ws sh = Returned (final_shell (forEach_close outcome ws sh))"
proof (induction ws arbitrary: sh)
  case Nil
  then show ?case by simp
next
  case (Cons w ws)
  then show ?case by (cases "outcome w") (simp_all add: widget_close_def)
qed

lemma forEach_close_throws:
  "\<not> list_all (\<lambda>w. outcome w \<noteq> Throws) ws \<Longrightarrow>
     forEach_close outcome ws sh = Thrown (final_shell (forEach_close outcome ws sh))"
proof (induction ws arbitrary: sh)
  case Nil
  then show ?case by simp
next
  case (Cons w ws)
  then show ?case by (cases "outcome w") (simp_all add: widget_close_def)
qed

lemma forEach_close_main_widgets:
  "main_widgets (final_shell (forEach_close outcome ws sh)) =
     filter (\<lambda>v. \<not> (v \<in> set (takeWhile (\<lambda>w. outcome w \<noteq> Throws) ws) \<and> outcome v = Closes))
       (main_widgets sh)"
proof (induction ws arbitrary: sh)
  case Nil
  then show ?case by simp
next
  case (Cons w ws)
  show ?case
  proof (cases "outcome w")
    case Closes
    then show ?thesis
      by (auto simp add: widget_close_def Cons.IH removeAll_filter_not_eq intro: filter_cong)
  next
    case StaysOpen
    then show ?thesis by (auto simp add: widget_close_def Cons.IH intro: filter_cong)
  next
    case Throws
    then show ?thesis by (simp add: widget_close_def)
  qed
qed

subsection \<open>The sample inputs, evaluated\<close>

lemma reached_tab_a:
  "reached [AddWidget tab_a] =
     \<lparr>widgets = [tab_a], title_connections = [0], layout_connected = True,
      trace = [ConnectTitle 0]\<rparr>"
  by (simp add: reached_def OpenTabsSignaler_new_def addWidget_def connect_def
      instanceof_MainAreaWidget_def tab_a_def)

lemma lowered_types:
  "toLowerCase (type foo_notebook) = ''notebook''"
  "toLowerCase (type notebook_console) = ''console''"
  "toLowerCase (type plain_console) = ''console''"
  "toLowerCase (type text_file) = ''file''"
  "toLowerCase (type console_on_notebook) = ''console''"
  "toLowerCase (type unnamed_notebook_console) = ''console''"
  "toLowerCase (type session_in_ipynb_dir) = ''notebook''"
  by (simp_all add: foo_notebook_def notebook_console_def plain_console_def text_file_def
      console_on_notebook_def unnamed_notebook_console_def session_in_ipynb_dir_def)
    code_simp+

lemma contains_ipynb:
  "sublist ''.ipynb'' ''log.ipynb''"
  "sublist ''.ipynb'' ''lab.ipynb''"
  "sublist ''.ipynb'' ''work/log.ipynb''"
  "sublist ''.ipynb'' ''a.ipynb/scratch''"
  "\<not> sublist ''.ipynb'' ''Console 1''"
  "\<not> sublist ''.ipynb'' ''notes.txt''"
  "\<not> sublist ''.ipynb'' ''scratch''"
  unfolding indexOf_found [symmetric] by simp_all

section \<open>The claims\<close>

text \<open>
  Claim C1. In a signaler reached by any run of events, when the title of a tracked widget
  \<open>w\<close> changes: \<open>tabsChanged\<close> is emitted exactly once; the slot is disconnected from
  the title signal of every tracked widget; \<open>this._widgets\<close> is cleared; no title
  connection is left, so a further title change of any widget, \<open>w\<close> included, changes
  nothing and emits nothing; and once \<open>w\<close> has been added again, its next title change
  emits again.
\<close>

theorem title_change_one_shot:
  assumes "w \<in> set (widgets (reached es))"
  shows "emissions (title_changed (content_title_changed w) (reached es)) = emissions (reached es) + 1
    \<and> trace (title_changed (content_title_changed w) (reached es)) =
        trace (reached es)
          @ map (\<lambda>v. DisconnectTitle (content_title_changed v)) (widgets (reached es))
          @ [ClearWidgets, EmitTabsChanged]
    \<and> widgets (title_changed (content_title_changed w) (reached es)) = []
    \<and> title_connections (title_changed (content_title_changed w) (reached es)) = []
    \<and> title_changed c (title_changed (content_title_changed w) (reached es))
        = title_changed (content_title_changed w) (reached es)
    \<and> emissions (title_changed (content_title_changed w)
          (addWidget w (title_changed (content_title_changed w) (reached es))))
        = emissions (reached es) + 2
    \<and> (w \<in> set ws \<longrightarrow>
        emissions (title_changed (content_title_changed w)
          (snd (open_tabs_running ws (title_changed (content_title_changed w) (reached es)))))
        = emissions (reached es) + 2)"
proof -
  let ?s = "reached es"
  let ?c = "content_title_changed w"
  have cons: "consistent ?s" by (rule consistent_reached)
  have conn: "?c \<in> set (title_connections ?s)" using cons assms by (rule tracked_connected)
  have main: "instanceof_MainAreaWidget w" using cons assms by (rule tracked_is_main_area)
  have fired: "title_changed ?c ?s = emitTabsChanged ?s" using conn by (simp add: title_changed_def)
  have none: "title_connections (emitTabsChanged ?s) = []"
    using cons by (rule consistent_emitTabsChanged_connections)
  have again: "title_changed ?c (addWidget w (emitTabsChanged ?s))
      = emitTabsChanged (addWidget w (emitTabsChanged ?s))"
    using main by (simp add: title_changed_def addWidget_def connect_def)
  have readd: "emissions (addWidget w (emitTabsChanged ?s)) = emissions (emitTabsChanged ?s)"
    using main by (simp add: emissions_def addWidget_def count_list_append)
  have after: "consistent (emitTabsChanged ?s)" using cons by (rule consistent_emitTabsChanged)
  have rerun: "emissions (title_changed ?c (snd (open_tabs_running ws (emitTabsChanged ?s))))
      = emissions ?s + 2" if "w \<in> set ws"
    using running_resubscribes [OF after main that] by (simp add: emissions_emitTabsChanged)
  show ?thesis
    using none rerun
    by (simp add: fired emissions_emitTabsChanged emitTabsChanged_fields(1,4)
        title_changed_unconnected again readd)
qed

theorem title_change_one_shot_witness:
  "tab_a \<in> set (widgets (reached [AddWidget tab_a]))
   \<and> emissions (reached [AddWidget tab_a]) = 0
   \<and> emissions (title_changed 0 (reached [AddWidget tab_a])) = 1
   \<and> trace (title_changed 0 (reached [AddWidget tab_a])) =
       [ConnectTitle 0, DisconnectTitle 0, ClearWidgets, EmitTabsChanged]
   \<and> widgets (title_changed 0 (reached [AddWidget tab_a])) = []
   \<and> title_connections (title_changed 0 (reached [AddWidget tab_a])) = []
   \<and> emissions (title_changed 0 (title_changed 0 (reached [AddWidget tab_a]))) = 1
   \<and> emissions (title_changed 0 (addWidget tab_a (title_changed 0 (reached [AddWidget tab_a])))) = 2
   \<and> tab_a \<in> set [tab_b, tab_a]
   \<and> emissions (title_changed 0
        (snd (open_tabs_running [tab_b, tab_a] (title_changed 0 (reached [AddWidget tab_a]))))) = 2"
proof -
  have h: "tab_a \<in> set (widgets (reached [AddWidget tab_a]))"
    by (simp add: reached_tab_a)
  have c: "content_title_changed tab_a = 0" by (simp add: tab_a_def)
  have e: "emissions (reached [AddWidget tab_a]) = 0"
    by (simp add: reached_tab_a emissions_def)
  from title_change_one_shot [OF h, of 0 "[tab_b, tab_a]"] show ?thesis
    using h by (simp add: c e) (simp add: reached_tab_a c)
qed

text \<open>
  Claim C2. In a signaler reached by any run of events (adding widgets, title changes,
  earlier layout changes), whatever it tracks, a \<open>layoutModified\<close> notification emits
  \<open>tabsChanged\<close> exactly once.
\<close>

theorem layout_modified_emits_once:
  "emissions (layout_modified (reached es)) = emissions (reached es) + 1"
proof -
  have "consistent (reached es)" by (rule consistent_reached)
  then have "layout_connected (reached es)" by (simp add: consistent_def)
  then have "layout_modified (reached es) = emitTabsChanged (reached es)"
    by (simp add: layout_modified_def)
  then show ?thesis by (simp add: emissions_emitTabsChanged)
qed

theorem layout_modified_emits_once_witness:
  "emissions (reached [AddWidget tab_a, LayoutModified, AddWidget side_panel]) = 1
   \<and> emissions (layout_modified (reached [AddWidget tab_a, LayoutModified, AddWidget side_panel])) = 2"
proof -
  have e: "emissions (reached [AddWidget tab_a, LayoutModified, AddWidget side_panel]) = 1"
    by (simp add: reached_def OpenTabsSignaler_new_def addWidget_def connect_def disconnect_def
      instanceof_MainAreaWidget_def tab_a_def side_panel_def layout_modified_def
      emitTabsChanged_def tabsChanged_emit_def clear_widgets_def disconnect_all_def emissions_def)
  from layout_modified_emits_once [of "[AddWidget tab_a, LayoutModified, AddWidget side_panel]"]
  show ?thesis using e by simp
qed

text \<open>
  Claim C3 as stated fails: the icon does not depend on whether the name or the path
  contains \<open>.ipynb\<close>. A console named \<open>Console 1\<close> whose path is \<open>work/log.ipynb\<close> gets
  the console icon, its path never being read; a record without a name whose path is
  \<open>a.ipynb/scratch\<close> gets the file icon, only the basename of its path being searched.
\<close>

theorem kernel_icon_path_not_searched_counterexample:
  "sublist ''.ipynb'' (path console_on_notebook)
   \<and> kernel_icon last_segment (RunningKernel console_on_notebook) = consoleIcon
   \<and> sublist ''.ipynb'' (path session_in_ipynb_dir)
   \<and> kernel_icon last_segment (RunningKernel session_in_ipynb_dir) = fileIcon"
proof -
  have n: "name console_on_notebook = ''Console 1''" "path console_on_notebook = ''work/log.ipynb''"
    "name session_in_ipynb_dir = []" "path session_in_ipynb_dir = ''a.ipynb/scratch''"
    by (simp_all add: console_on_notebook_def session_in_ipynb_dir_def)
  have b: "last_segment ''a.ipynb/scratch'' = ''scratch''" by simp
  show ?thesis
    by (simp add: kernel_icon_def or_else_def n b lowered_types indexOf_found contains_ipynb)
qed

text \<open>
  Claim C3, amended. \<open>RunningKernel.icon\<close> is a three-way choice in a fixed order, made on
  one string: the record's name when the name is not empty, and the basename of its path
  only when the name is empty. If that string contains \<open>.ipynb\<close> the icon is the notebook
  icon, also when the lowered type is \<open>console\<close>; otherwise, if the lowered type is
  \<open>console\<close>, the console icon; otherwise the file icon.
\<close>

theorem kernel_icon_name_then_basename:
  "(name m \<noteq> [] \<longrightarrow>
      kernel_icon basename (RunningKernel m) =
        (if sublist ''.ipynb'' (name m) then notebookIcon
         else if toLowerCase (type m) = ''console'' then consoleIcon
         else fileIcon))
   \<and> (name m = [] \<longrightarrow>
      kernel_icon basename (RunningKernel m) =
        (if sublist ''.ipynb'' (basename (path m)) then notebookIcon
         else if toLowerCase (type m) = ''console'' then consoleIcon
         else fileIcon))
   \<and> (sublist ''.ipynb'' (name m) \<and> toLowerCase (type m) = ''console'' \<longrightarrow>
      kernel_icon basename (RunningKernel m) = notebookIcon)
   \<and> (name m = [] \<and> sublist ''.ipynb'' (basename (path m))
        \<and> toLowerCase (type m) = ''console'' \<longrightarrow>
      kernel_icon basename (RunningKernel m) = notebookIcon)"
proof -
  have named: "kernel_icon basename (RunningKernel m) =
        (if sublist ''.ipynb'' (name m) then notebookIcon
         else if toLowerCase (type m) = ''console'' then consoleIcon
         else fileIcon)" if "name m \<noteq> []"
    using that by (simp add: kernel_icon_def or_else_def indexOf_found)
  have unnamed: "kernel_icon basename (RunningKernel m) =
        (if sublist ''.ipynb'' (basename (path m)) then notebookIcon
         else if toLowerCase (type m) = ''console'' then consoleIcon
         else fileIcon)" if "name m = []"
    using that by (simp add: kernel_icon_def or_else_def indexOf_found)
  have nonempty: "name m \<noteq> []" if "sublist ''.ipynb'' (name m)"
    using that by auto
  show ?thesis
    using named unnamed nonempty by auto
qed

theorem kernel_icon_name_then_basename_witness:
  "name notebook_console \<noteq> []
   \<and> sublist ''.ipynb'' (name notebook_console)
   \<and> toLowerCase (type notebook_console) = ''console''
   \<and> kernel_icon last_segment (RunningKernel notebook_console) = notebookIcon
   \<and> name plain_console \<noteq> []
   \<and> kernel_icon last_segment (RunningKernel plain_console) = consoleIcon
   \<and> name unnamed_notebook_console = []
   \<and> sublist ''.ipynb'' (last_segment (path unnamed_notebook_console))
   \<and> toLowerCase (type unnamed_notebook_console) = ''console''
   \<and> kernel_icon last_segment (RunningKernel unnamed_notebook_console) = notebookIcon
   \<and> name text_file = []
   \<and> kernel_icon last_segment (RunningKernel text_file) = fileIcon"
proof -
  have n: "name notebook_console = ''log.ipynb''" "name plain_console = ''Console 1''"
    "name unnamed_notebook_console = []" "name text_file = []"
    by (simp_all add: notebook_console_def plain_console_def unnamed_notebook_console_def
        text_file_def)
  have b: "last_segment (path unnamed_notebook_console) = ''lab.ipynb''"
    "last_segment (path text_file) = ''notes.txt''"
    by (simp_all add: unnamed_notebook_console_def text_file_def)
  from kernel_icon_name_then_basename [of notebook_console last_segment]
    kernel_icon_name_then_basename [of plain_console last_segment]
    kernel_icon_name_then_basename [of unnamed_notebook_console last_segment]
    kernel_icon_name_then_basename [of text_file last_segment]
  show ?thesis by (simp add: n b lowered_types contains_ipynb)
qed

text \<open>
  Claim C4. \<open>filterSessions\<close> rejects exactly the records whose display name has no dot
  and whose name is empty, that is the records with an empty name and a path whose
  basename has no dot; \<open>running\<close> of the Kernels provider returns the other records, in
  order. A record named \<open>foo.ipynb\<close> is returned, and its icon is the notebook icon.
\<close>

theorem kernels_running_filter_law:
  "(filterSessions basename m \<longleftrightarrow>
      \<not> (CHR ''.'' \<notin> set (or_else (name m) (basename (path m))) \<and> name m = []))
   \<and> kernels_running basename ms =
       map RunningKernel
         (filter (\<lambda>m. \<not> (name m = [] \<and> CHR ''.'' \<notin> set (basename (path m)))) ms)
   \<and> (RunningKernel m \<in> set (kernels_running basename ms) \<longleftrightarrow>
        m \<in> set ms \<and> \<not> (name m = [] \<and> CHR ''.'' \<notin> set (basename (path m))))
   \<and> (name m = [] \<and> CHR ''.'' \<notin> set (basename (path m)) \<longrightarrow>
        RunningKernel m \<notin> set (kernels_running basename ms))
   \<and> (name m = ''foo.ipynb'' \<and> m \<in> set ms \<longrightarrow>
        RunningKernel m \<in> set (kernels_running basename ms)
        \<and> kernel_icon basename (RunningKernel m) = notebookIcon)"
proof -
  have f: "filterSessions basename x \<longleftrightarrow> \<not> (name x = [] \<and> CHR ''.'' \<notin> set (basename (path x)))"
    for x
    by (auto simp: filterSessions_def indexOf_dot or_else_def)
  have r: "kernels_running basename ms =
       map RunningKernel
         (filter (\<lambda>m. \<not> (name m = [] \<and> CHR ''.'' \<notin> set (basename (path m)))) ms)"
  proof -
    have "filterSessions basename =
        (\<lambda>m. \<not> (name m = [] \<and> CHR ''.'' \<notin> set (basename (path m))))"
      by (rule ext) (rule f)
    then show ?thesis by (simp only: kernels_running_def)
  qed
  have i: "kernel_icon basename (RunningKernel m) = notebookIcon" if "name m = ''foo.ipynb''"
  proof -
    have "indexOf ''foo.ipynb'' ''.ipynb'' \<noteq> - 1" by simp
    then show ?thesis using that by (simp add: kernel_icon_def or_else_def)
  qed
  have mem: "RunningKernel m \<in> set (kernels_running basename ms) \<longleftrightarrow>
        m \<in> set ms \<and> \<not> (name m = [] \<and> CHR ''.'' \<notin> set (basename (path m)))"
    unfolding r by auto
  have g: "filterSessions basename m \<longleftrightarrow>
      \<not> (CHR ''.'' \<notin> set (or_else (name m) (basename (path m))) \<and> name m = [])"
    by (auto simp: filterSessions_def indexOf_dot)
  show ?thesis
    using i by (simp only: g r [symmetric] mem) auto
qed

theorem kernels_running_filter_law_witness:
  "name unnamed_session = [] \<and> CHR ''.'' \<notin> set (last_segment (path unnamed_session))
   \<and> RunningKernel unnamed_session \<notin>
        set (kernels_running last_segment [foo_notebook, unnamed_session, text_file])
   \<and> name foo_notebook = ''foo.ipynb''
   \<and> foo_notebook \<in> set [foo_notebook, unnamed_session, text_file]
   \<and> RunningKernel foo_notebook \<in>
        set (kernels_running last_segment [foo_notebook, unnamed_session, text_file])
   \<and> kernel_icon last_segment (RunningKernel foo_notebook) = notebookIcon
   \<and> kernels_running last_segment [foo_notebook, unnamed_session, text_file] =
        [RunningKernel foo_notebook, RunningKernel text_file]"
proof -
  have u: "name unnamed_session = []" "last_segment (path unnamed_session) = ''scratch''"
    by (simp_all add: unnamed_session_def)
  have n: "name foo_notebook = ''foo.ipynb''" by (simp add: foo_notebook_def)
  have t: "name text_file = []" "last_segment (path text_file) = ''notes.txt''"
    by (simp_all add: text_file_def)
  from kernels_running_filter_law
      [of last_segment unnamed_session "[foo_notebook, unnamed_session, text_file]"]
    kernels_running_filter_law
      [of last_segment foo_notebook "[foo_notebook, unnamed_session, text_file]"]
  show ?thesis by (simp add: u n t)
qed

text \<open>
  Claim C5 as stated fails for the Open Tabs provider. With three tabs of which the second
  throws on \<open>close\<close>, \<open>shutdownAll\<close> ends with the exception after two calls: the third
  tab is never asked to close and stays open.
\<close>

theorem shutdownAll_stops_at_throw_counterexample:
  "open_tabs_shutdownAll b_throws three_tabs =
     Thrown \<lparr>main_widgets = [tab_b, tab_c], close_calls = [tab_a, tab_b]\<rparr>
   \<and> tab_c \<notin> set (close_calls (final_shell (open_tabs_shutdownAll b_throws three_tabs)))
   \<and> tab_c \<in> set (main_widgets (final_shell (open_tabs_shutdownAll b_throws three_tabs)))"
  by (simp add: open_tabs_shutdownAll_def three_tabs_def widget_close_def b_throws_def
      tab_a_def tab_b_def tab_c_def)

text \<open>
  Claim C5, amended. \<open>shutdownAll\<close> of the Open Tabs provider calls \<open>close\<close> on the
  shell's main-area widgets in order, up to and including the first whose \<open>close\<close>
  throws, and the widgets it leaves are those not closed by these calls. A \<open>close\<close> that
  returns with its widget still open does not stop the loop: when no \<open>close\<close> throws,
  \<open>shutdownAll\<close> returns and every widget has been attempted. When a \<open>close\<close> throws,
  \<open>shutdownAll\<close> ends with that exception. \<open>shutdownAll\<close> of the Kernels provider is the
  session manager's.
\<close>

theorem shutdownAll_until_first_throw:
  "close_calls (final_shell (open_tabs_shutdownAll outcome sh)) =
     close_calls sh @ takeWhile (\<lambda>w. outcome w \<noteq> Throws) (main_widgets sh)
       @ take 1 (dropWhile (\<lambda>w. outcome w \<noteq> Throws) (main_widgets sh))
   \<and> main_widgets (final_shell (open_tabs_shutdownAll outcome sh)) =
     filter (\<lambda>v. \<not> (v \<in> set (takeWhile (\<lambda>w. outcome w \<noteq> Throws) (main_widgets sh))
                    \<and> outcome v = Closes)) (main_widgets sh)
   \<and> (list_all (\<lambda>w. outcome w \<noteq> Throws) (main_widgets sh) \<longrightarrow>
        open_tabs_shutdownAll outcome sh = Returned (final_shell (open_tabs_shutdownAll outcome sh))
        \<and> close_calls (final_shell (open_tabs_shutdownAll outcome sh)) =
            close_calls sh @ main_widgets sh)
   \<and> (\<not> list_all (\<lambda>w. outcome w \<noteq> Throws) (main_widgets sh) \<longrightarrow>
        open_tabs_shutdownAll outcome sh = Thrown (final_shell (open_tabs_shutdownAll outcome sh)))
   \<and> kernels_shutdownAll manager_shutdownAll manager = manager_shutdownAll manager"
proof -
  let ?ws = "main_widgets sh"
  have calls: "close_calls (final_shell (forEach_close outcome ?ws sh)) =
     close_calls sh @ takeWhile (\<lambda>w. outcome w \<noteq> Throws) ?ws
       @ take 1 (dropWhile (\<lambda>w. outcome w \<noteq> Throws) ?ws)"
    by (rule forEach_close_calls)
  have all: "close_calls (final_shell (forEach_close outcome ?ws sh)) = close_calls sh @ ?ws"
    if "list_all (\<lambda>w. outcome w \<noteq> Throws) ?ws"
  proof -
    from that have tw: "takeWhile (\<lambda>w. outcome w \<noteq> Throws) ?ws = ?ws"
      by (simp add: list_all_iff takeWhile_eq_all_conv)
    from that have dw: "dropWhile (\<lambda>w. outcome w \<noteq> Throws) ?ws = []"
      by (simp add: list_all_iff dropWhile_eq_Nil_conv)
    show ?thesis unfolding calls tw dw by simp
  qed
  have ret: "forEach_close outcome ?ws sh = Returned (final_shell (forEach_close outcome ?ws sh))"
    if "list_all (\<lambda>w. outcome w \<noteq> Throws) ?ws"
    using that by (rule forEach_close_returns)
  have thr: "forEach_close outcome ?ws sh = Thrown (final_shell (forEach_close outcome ?ws sh))"
    if "\<not> list_all (\<lambda>w. outcome w \<noteq> Throws) ?ws"
    using that by (rule forEach_close_throws)
  have rest: "main_widgets (final_shell (forEach_close outcome ?ws sh)) =
     filter (\<lambda>v. \<not> (v \<in> set (takeWhile (\<lambda>w. outcome w \<noteq> Throws) ?ws) \<and> outcome v = Closes)) ?ws"
    by (rule forEach_close_main_widgets)
  show ?thesis
    unfolding open_tabs_shutdownAll_def kernels_shutdownAll_def
    by (intro conjI impI calls rest all ret thr refl)
qed

theorem shutdownAll_until_first_throw_witness:
  "list_all (\<lambda>w. b_stays_open w \<noteq> Throws) (main_widgets three_tabs)
   \<and> open_tabs_shutdownAll b_stays_open three_tabs =
       Returned \<lparr>main_widgets = [tab_b], close_calls = [tab_a, tab_b, tab_c]\<rparr>
   \<and> \<not> list_all (\<lambda>w. b_throws w \<noteq> Throws) (main_widgets three_tabs)
   \<and> close_calls (final_shell (open_tabs_shutdownAll b_throws three_tabs)) = [tab_a, tab_b]
   \<and> open_tabs_shutdownAll b_throws three_tabs =
       Thrown (final_shell (open_tabs_shutdownAll b_throws three_tabs))"
proof -
  have ab: "tab_a \<noteq> tab_b" and ac: "tab_a \<noteq> tab_c" and bc: "tab_b \<noteq> tab_c"
    by (simp_all add: tab_a_def tab_b_def tab_c_def)
  have ids: "widget_id tab_a = ''a''" "widget_id tab_b = ''b''" "widget_id tab_c = ''c''"
    by (simp_all add: tab_a_def tab_b_def tab_c_def)
  have h1: "list_all (\<lambda>w. b_stays_open w \<noteq> Throws) (main_widgets three_tabs)"
    by (simp add: three_tabs_def b_stays_open_def)
  have h2: "\<not> list_all (\<lambda>w. b_throws w \<noteq> Throws) (main_widgets three_tabs)"
    by (simp add: three_tabs_def b_throws_def ids)
  have m: "main_widgets three_tabs = [tab_a, tab_b, tab_c]" "close_calls three_tabs = []"
    by (simp_all add: three_tabs_def)
  have f: "final_shell (open_tabs_shutdownAll b_stays_open three_tabs) =
      \<lparr>main_widgets = [tab_b], close_calls = [tab_a, tab_b, tab_c]\<rparr>"
    using ab ac bc
    by (simp add: open_tabs_shutdownAll_def three_tabs_def widget_close_def b_stays_open_def ids)
  note stays = shutdownAll_until_first_throw [of b_stays_open three_tabs "\<lambda>u::unit. u" "()"]
  note throws = shutdownAll_until_first_throw [of b_throws three_tabs "\<lambda>u::unit. u" "()"]
  have r1: "open_tabs_shutdownAll b_stays_open three_tabs =
      Returned (final_shell (open_tabs_shutdownAll b_stays_open three_tabs))"
    using stays h1 by blast
  have r2: "open_tabs_shutdownAll b_throws three_tabs =
      Thrown (final_shell (open_tabs_shutdownAll b_throws three_tabs))"
    using throws h2 by blast
  have r3: "close_calls (final_shell (open_tabs_shutdownAll b_throws three_tabs)) =
      close_calls three_tabs @ takeWhile (\<lambda>w. b_throws w \<noteq> Throws) (main_widgets three_tabs)
       @ take 1 (dropWhile (\<lambda>w. b_throws w \<noteq> Throws) (main_widgets three_tabs))"
    using throws by blast
  have c: "close_calls (final_shell (open_tabs_shutdownAll b_throws three_tabs)) = [tab_a, tab_b]"
    unfolding r3 by (simp add: m b_throws_def ids)
  show ?thesis using h1 h2 r1 r2 c by (simp add: f)
qed

text \<open>
  Claim C6 as stated fails. After \<open>tab_a\<close> has been added twice to a fresh signaler, it is
  twice in \<open>this._widgets\<close>, but the slot is connected to its title signal once, and a
  title change emits \<open>tabsChanged\<close> once.
\<close>

theorem double_add_one_connection_counterexample:
  "widgets (addWidget tab_a (addWidget tab_a OpenTabsSignaler_new)) = [tab_a, tab_a]
   \<and> count_list (title_connections (addWidget tab_a (addWidget tab_a OpenTabsSignaler_new)))
        (content_title_changed tab_a) = 1
   \<and> emissions (addWidget tab_a (addWidget tab_a OpenTabsSignaler_new)) = 0
   \<and> emissions (title_changed (content_title_changed tab_a)
        (addWidget tab_a (addWidget tab_a OpenTabsSignaler_new))) = 1"
  by (simp add: OpenTabsSignaler_new_def addWidget_def connect_def disconnect_def
      instanceof_MainAreaWidget_def tab_a_def title_changed_def
      emitTabsChanged_def tabsChanged_emit_def clear_widgets_def disconnect_all_def emissions_def)

text \<open>
  Claim C6, amended. In a signaler reached by any run of events, adding a
  \<open>MainAreaWidget\<close> twice in a row appends it to \<open>this._widgets\<close> twice and leaves the
  slot connected to its title signal exactly once; a title change of the widget then emits
  \<open>tabsChanged\<close> exactly once and leaves no title connection.
\<close>

theorem double_add_one_connection:
  assumes "instanceof_MainAreaWidget w"
  shows "widgets (addWidget w (addWidget w (reached es))) = widgets (reached es) @ [w, w]
   \<and> count_list (title_connections (addWidget w (addWidget w (reached es))))
        (content_title_changed w) = 1
   \<and> emissions (title_changed (content_title_changed w) (addWidget w (addWidget w (reached es))))
        = emissions (addWidget w (addWidget w (reached es))) + 1
   \<and> title_connections
        (title_changed (content_title_changed w) (addWidget w (addWidget w (reached es)))) = []"
proof -
  let ?s1 = "addWidget w (reached es)"
  let ?s2 = "addWidget w ?s1"
  let ?c = "content_title_changed w"
  have c1: "consistent ?s1" using consistent_reached by (rule consistent_addWidget)
  then have c2: "consistent ?s2" by (rule consistent_addWidget)
  have d: "distinct (title_connections ?s2)" using c2 by (simp add: consistent_def)
  have m: "?c \<in> set (title_connections ?s2)"
    using assms by (simp add: addWidget_def connect_def)
  have one: "count_list (title_connections ?s2) ?c = 1"
    using d m by (simp add: count_list_distinct)
  have fired: "title_changed ?c ?s2 = emitTabsChanged ?s2"
    using m by (simp add: title_changed_def)
  have none: "title_connections (emitTabsChanged ?s2) = []"
    using c2 by (rule consistent_emitTabsChanged_connections)
  show ?thesis
    using one none
    by (simp add: fired emissions_emitTabsChanged addWidget_twice_fields(1) [OF assms])
qed

theorem double_add_one_connection_witness:
  "instanceof_MainAreaWidget tab_b
   \<and> widgets (addWidget tab_b (addWidget tab_b (reached [AddWidget tab_a]))) = [tab_a, tab_b, tab_b]
   \<and> count_list (title_connections (addWidget tab_b (addWidget tab_b (reached [AddWidget tab_a])))) 1 = 1
   \<and> emissions (addWidget tab_b (addWidget tab_b (reached [AddWidget tab_a]))) = 0
   \<and> emissions (title_changed 1 (addWidget tab_b (addWidget tab_b (reached [AddWidget tab_a])))) = 1
   \<and> title_connections (title_changed 1 (addWidget tab_b (addWidget tab_b (reached [AddWidget tab_a])))) = []"
proof -
  have h: "instanceof_MainAreaWidget tab_b"
    by (simp add: instanceof_MainAreaWidget_def tab_b_def)
  have c: "content_title_changed tab_b = 1" by (simp add: tab_b_def)
  have e: "emissions (addWidget tab_b (addWidget tab_b (reached [AddWidget tab_a]))) = 0"
    using h by (simp add: reached_tab_a addWidget_def emissions_def)
  from double_add_one_connection [OF h, of "[AddWidget tab_a]"] show ?thesis
    using h e by (simp add: c reached_tab_a)
qed

text \<open>
  Claim C7. \<open>addWidget\<close> of a \<open>MainAreaWidget\<close> appends the widget to \<open>this._widgets\<close> and
  connects the slot to its title signal; \<open>addWidget\<close> of any other widget leaves the
  signaler as it was; so the widget is tracked if and only if it is a \<open>MainAreaWidget\<close>.
\<close>

theorem addWidget_tracks_main_area_only:
  "(instanceof_MainAreaWidget w \<longrightarrow>
      widgets (addWidget w s) = widgets s @ [w]
      \<and> content_title_changed w \<in> set (title_connections (addWidget w s))
      \<and> trace (addWidget w s) = trace s @ [ConnectTitle (content_title_changed w)])
   \<and> (\<not> instanceof_MainAreaWidget w \<longrightarrow> addWidget w s = s)
   \<and> (widgets (addWidget w s) = widgets s @ [w] \<longleftrightarrow> instanceof_MainAreaWidget w)"
  by (simp add: addWidget_def connect_def)

theorem addWidget_tracks_main_area_only_witness:
  "instanceof_MainAreaWidget tab_b
   \<and> widgets (addWidget tab_b (reached [AddWidget tab_a])) = [tab_a, tab_b]
   \<and> title_connections (addWidget tab_b (reached [AddWidget tab_a])) = [0, 1]
   \<and> \<not> instanceof_MainAreaWidget side_panel
   \<and> addWidget side_panel (reached [AddWidget tab_a]) = reached [AddWidget tab_a]"
proof -
  have m: "instanceof_MainAreaWidget tab_b"
    by (simp add: instanceof_MainAreaWidget_def tab_b_def)
  have n: "\<not> instanceof_MainAreaWidget side_panel"
    by (simp add: instanceof_MainAreaWidget_def side_panel_def)
  have t: "title_connections (addWidget tab_b (reached [AddWidget tab_a])) = [0, 1]"
    using m by (simp add: reached_tab_a addWidget_def connect_def tab_b_def)
  from addWidget_tracks_main_area_only [of tab_b "reached [AddWidget tab_a]"]
    addWidget_tracks_main_area_only [of side_panel "reached [AddWidget tab_a]"]
  show ?thesis using m n t by (simp add: reached_tab_a)
qed

text \<open>
  Claim C8. \<open>RunningKernel.open\<close> executes exactly one command, on the record's path:
  \<open>console:open\<close> when the lowered type is \<open>console\<close>, \<open>docmanager:open\<close> for every
  other type. Two records whose types are equal up to case are sent to the same command.
\<close>

theorem kernel_open_dispatch:
  "kernel_open k =
     [Execute (if toLowerCase (type (model k)) = ''console'' then ''console:open''
               else ''docmanager:open'') (path (model k))]
   \<and> (kernel_open k = [Execute ''console:open'' (path (model k))] \<longleftrightarrow>
        toLowerCase (type (model k)) = ''console'')
   \<and> (kernel_open k = [Execute ''docmanager:open'' (path (model k))] \<longleftrightarrow>
        toLowerCase (type (model k)) \<noteq> ''console'')
   \<and> (toLowerCase (type (model k)) = toLowerCase (type (model k')) \<longrightarrow>
        map command_id (kernel_open k) = map command_id (kernel_open k'))"
  by (auto simp add: kernel_open_def Let_def)

theorem kernel_open_dispatch_witness:
  "toLowerCase (type (model (RunningKernel notebook_console))) =
     toLowerCase (type (model (RunningKernel plain_console)))
   \<and> kernel_open (RunningKernel notebook_console) = [Execute ''console:open'' ''work/log.ipynb'']
   \<and> kernel_open (RunningKernel plain_console) = [Execute ''console:open'' ''work/console-1'']
   \<and> kernel_open (RunningKernel foo_notebook) = [Execute ''docmanager:open'' ''work/foo.ipynb'']"
proof -
  have p: "path notebook_console = ''work/log.ipynb''" "path plain_console = ''work/console-1''"
    "path foo_notebook = ''work/foo.ipynb''"
    by (simp_all add: notebook_console_def plain_console_def foo_notebook_def)
  from kernel_open_dispatch [of "RunningKernel notebook_console" "RunningKernel plain_console"]
    kernel_open_dispatch [of "RunningKernel plain_console" "RunningKernel plain_console"]
    kernel_open_dispatch [of "RunningKernel foo_notebook" "RunningKernel plain_console"]
  show ?thesis by (simp add: lowered_types p)
qed

text \<open>
  Claim C9. The effects of \<open>_emitTabsChanged\<close> are, in this order: one disconnect per
  tracked widget, the clearing of \<open>this._widgets\<close>, and last the emission. The emission
  runs in the state those mutations have left: \<open>this._widgets\<close> is empty and, in a
  signaler reached by any run of events, no title connection is left. In the trace of
  every such run, each emission comes directly after a clearing.
\<close>

theorem emission_after_mutation:
  "trace (emitTabsChanged s) =
     trace s @ map (\<lambda>w. DisconnectTitle (content_title_changed w)) (widgets s) @
       [ClearWidgets, EmitTabsChanged]
   \<and> tabsChanged_emit (clear_widgets (disconnect_all s)) = emitTabsChanged s
   \<and> widgets (clear_widgets (disconnect_all s)) = []
   \<and> title_connections (clear_widgets (disconnect_all (reached es))) = []
   \<and> mutate_then_announce (trace (reached es))"
proof -
  have "title_connections (emitTabsChanged (reached es)) = []"
    using consistent_reached by (rule consistent_emitTabsChanged_connections)
  then have "title_connections (clear_widgets (disconnect_all (reached es))) = []"
    by (simp add: emitTabsChanged_def tabsChanged_emit_def)
  then show ?thesis
    by (simp add: emitTabsChanged_fields(4) ordered_reached)
       (simp add: emitTabsChanged_def clear_widgets_def)
qed

theorem emission_after_mutation_witness:
  "trace (emitTabsChanged (reached [AddWidget tab_a])) =
     [ConnectTitle 0, DisconnectTitle 0, ClearWidgets, EmitTabsChanged]
   \<and> widgets (clear_widgets (disconnect_all (reached [AddWidget tab_a]))) = []
   \<and> title_connections (clear_widgets (disconnect_all (reached [AddWidget tab_a, TitleChanged 0, AddWidget tab_b]))) = []
   \<and> mutate_then_announce (trace (reached [AddWidget tab_a, TitleChanged 0, AddWidget tab_b]))"
proof -
  have c: "content_title_changed tab_a = 0" by (simp add: tab_a_def)
  from emission_after_mutation [of "reached [AddWidget tab_a]" "[AddWidget tab_a, TitleChanged 0, AddWidget tab_b]"]
  show ?thesis by (simp add: reached_tab_a c)
qed

text \<open>
  Claim C10. \<open>OpenTab.icon\<close> is the file icon for every item, whatever its widget; so
  every item that \<open>running\<close> of the Open Tabs provider returns has the file icon.
\<close>

theorem open_tab_icon_always_file:
  "open_tab_icon t = fileIcon
   \<and> map open_tab_icon (fst (open_tabs_running ws s)) = replicate (length ws) fileIcon"
proof -
  have one: "open_tab_icon x = fileIcon" for x by (cases x) simp
  have "map open_tab_icon (map OpenTab ws) = replicate (length ws) fileIcon"
    by (induction ws) simp_all
  then show ?thesis by (simp add: one open_tabs_running_def)
qed

theorem open_tab_icon_always_file_witness:
  "open_tab_icon (OpenTab tab_a) = fileIcon
   \<and> map open_tab_icon (fst (open_tabs_running [tab_a, tab_c, side_panel] OpenTabsSignaler_new))
       = [fileIcon, fileIcon, fileIcon]"
  using open_tab_icon_always_file
    [of "OpenTab tab_a" "[tab_a, tab_c, side_panel]" OpenTabsSignaler_new]
  by (simp add: numeral_3_eq_3)

end
